theory Spec2Isabelle
  imports Complex_Main
begin

section \<open>Numbers of the program\<close>

text \<open>
  Every number that reaches the arithmetic of \<^verbatim>\<open>Ant.py\<close> is a numpy value: the samples
  come from \<^verbatim>\<open>np.linspace\<close>, the temperature is a one-element array inside
  \<^verbatim>\<open>fsolve\<close> and a \<^verbatim>\<open>numpy.float64\<close> in the sweep. numpy arithmetic raises no
  exception: a division by zero gives an infinity or nan (with a warning). The
  embedding keeps that: a value is a real number, an infinity or nan. Finite values are
  idealised as reals: the rounding of a finite result to the nearest double is outside the
  model, and so is the sign of zero (a zero divisor is taken as \<open>+0.0\<close>, which is what
  \<open>C + T\<close> gives when \<open>T = -C\<close>). The range of doubles is kept where the program can leave
  it, in the power \<^verbatim>\<open>10 ** e\<close>.
\<close>

datatype npfloat = Fin real | PInf | NInf | NaN

fun np_neg :: "npfloat \<Rightarrow> npfloat" where
  "np_neg (Fin a) = Fin (- a)"
| "np_neg PInf = NInf"
| "np_neg NInf = PInf"
| "np_neg NaN = NaN"

fun np_add :: "npfloat \<Rightarrow> npfloat \<Rightarrow> npfloat" where
  "np_add (Fin a) (Fin b) = Fin (a + b)"
| "np_add NaN _ = NaN"
| "np_add _ NaN = NaN"
| "np_add PInf NInf = NaN"
| "np_add NInf PInf = NaN"
| "np_add PInf _ = PInf"
| "np_add _ PInf = PInf"
| "np_add NInf _ = NInf"
| "np_add _ NInf = NInf"

definition np_sub :: "npfloat \<Rightarrow> npfloat \<Rightarrow> npfloat" where
  "np_sub a b = np_add a (np_neg b)"

fun np_mul :: "npfloat \<Rightarrow> npfloat \<Rightarrow> npfloat" where
  "np_mul (Fin a) (Fin b) = Fin (a * b)"
| "np_mul NaN _ = NaN"
| "np_mul _ NaN = NaN"
| "np_mul (Fin a) PInf = (if 0 < a then PInf else if a < 0 then NInf else NaN)"
| "np_mul (Fin a) NInf = (if 0 < a then NInf else if a < 0 then PInf else NaN)"
| "np_mul PInf (Fin b) = (if 0 < b then PInf else if b < 0 then NInf else NaN)"
| "np_mul NInf (Fin b) = (if 0 < b then NInf else if b < 0 then PInf else NaN)"
| "np_mul PInf PInf = PInf"
| "np_mul NInf NInf = PInf"
| "np_mul PInf NInf = NInf"
| "np_mul NInf PInf = NInf"

fun np_div :: "npfloat \<Rightarrow> npfloat \<Rightarrow> npfloat" where
  "np_div (Fin a) (Fin b) =
     (if b \<noteq> 0 then Fin (a / b)
      else if 0 < a then PInf else if a < 0 then NInf else NaN)"
| "np_div NaN _ = NaN"
| "np_div _ NaN = NaN"
| "np_div (Fin a) PInf = Fin 0"
| "np_div (Fin a) NInf = Fin 0"
| "np_div PInf (Fin b) = (if 0 \<le> b then PInf else NInf)"
| "np_div NInf (Fin b) = (if 0 \<le> b then NInf else PInf)"
| "np_div _ _ = NaN"

text \<open>
  \<^verbatim>\<open>10 ** e\<close>: the power of ten of a float exponent, with the range of IEEE doubles. A
  value at or above \<^verbatim>\<open>2**1024 - 2**970\<close> (half an ulp above the largest double) rounds to
  \<open>inf\<close>, with a warning (the same power of a plain Python float raises
  \<^verbatim>\<open>OverflowError\<close>); a value at or below \<^verbatim>\<open>2**-1075\<close> (half the smallest subnormal) rounds
  to \<open>0.0\<close>. In between the result is idealised as the real number.
\<close>

definition dbl_overflow :: real where
  "dbl_overflow = 2 ^ 1024 - 2 ^ 970"

definition dbl_underflow :: real where
  "dbl_underflow = 1 / 2 ^ 1075"

fun np_pow10 :: "npfloat \<Rightarrow> npfloat" where
  "np_pow10 (Fin e) =
     (if dbl_overflow \<le> 10 powr e then PInf
      else if 10 powr e \<le> dbl_underflow then Fin 0
      else Fin (10 powr e))"
| "np_pow10 PInf = PInf"
| "np_pow10 NInf = Fin 0"
| "np_pow10 NaN = NaN"

text \<open>
  \<^verbatim>\<open>round(v, n)\<close> on a \<^verbatim>\<open>numpy.float64\<close>: scale by \<open>10 ^ n\<close>, round to the nearest
  integer with ties to the even one, scale back; an infinity or nan is returned as it is.
\<close>

definition rint :: "real \<Rightarrow> int" where
  "rint r =
     (let f = \<lfloor>r\<rfloor>; d = r - of_int f
      in if d < 1 / 2 then f else if 1 / 2 < d then f + 1
         else if even f then f else f + 1)"

fun np_round :: "npfloat \<Rightarrow> nat \<Rightarrow> npfloat" where
  "np_round (Fin r) n = Fin (of_int (rint (r * 10 ^ n)) / 10 ^ n)"
| "np_round v n = v"

text \<open>\<^verbatim>\<open>a < b\<close> on floats: false whenever an operand is nan.\<close>

fun np_less :: "npfloat \<Rightarrow> npfloat \<Rightarrow> bool" where
  "np_less (Fin a) (Fin b) = (a < b)"
| "np_less NaN _ = False"
| "np_less _ NaN = False"
| "np_less NInf NInf = False"
| "np_less NInf _ = True"
| "np_less _ NInf = False"
| "np_less PInf _ = False"
| "np_less _ PInf = True"

text \<open>\<^verbatim>\<open>a <= b\<close> on floats: false whenever an operand is nan.\<close>

fun np_le :: "npfloat \<Rightarrow> npfloat \<Rightarrow> bool" where
  "np_le (Fin a) (Fin b) = (a \<le> b)"
| "np_le NaN _ = False"
| "np_le _ NaN = False"
| "np_le NInf _ = True"
| "np_le _ PInf = True"
| "np_le _ _ = False"

section \<open>Antoine constants and saturation pressure\<close>

record antoine =
  const_A :: real
  const_B :: real
  const_C :: real

text \<open>The dict \<^verbatim>\<open>antoine_constants\<close> has the two literal keys the program looks up.\<close>

datatype species = heptane | octane

fun antoine_constants :: "species \<Rightarrow> antoine" where
  "antoine_constants heptane = \<lparr>const_A = 6893 / 1000, const_B = 1260, const_C = 216\<rparr>"
| "antoine_constants octane = \<lparr>const_A = 69094 / 10000, const_B = 1351, const_C = 217\<rparr>"

text \<open>\<^verbatim>\<open>return 10**(A - B / (C + T))\<close>\<close>

definition antoine_eq :: "npfloat \<Rightarrow> real \<Rightarrow> real \<Rightarrow> real \<Rightarrow> npfloat" where
  "antoine_eq T A B C = np_pow10 (np_sub (Fin A) (np_div (Fin B) (np_add (Fin C) T)))"

text \<open>\<^verbatim>\<open>antoine_eq(T, **antoine_constants[name])\<close>\<close>

definition antoine_at :: "npfloat \<Rightarrow> species \<Rightarrow> npfloat" where
  "antoine_at T name =
     (let c = antoine_constants name in antoine_eq T (const_A c) (const_B c) (const_C c))"

definition P_total :: real where
  "P_total = 760"

section \<open>Bubble-point solver\<close>

text \<open>The residual \<^verbatim>\<open>func\<close>, a closure over \<^verbatim>\<open>x_heptane\<close>.\<close>

definition func :: "npfloat \<Rightarrow> npfloat \<Rightarrow> npfloat" where
  "func x_heptane T =
     (let P_heptane = antoine_at T heptane;
          P_octane = antoine_at T octane;
          x_octane = np_sub (Fin 1) x_heptane
      in np_sub (np_add (np_mul x_heptane P_heptane) (np_mul x_octane P_octane))
           (Fin P_total))"

text \<open>
  \<^verbatim>\<open>scipy.optimize.fsolve\<close> is a library routine, not code of the repository: it is a
  parameter of the embedding, a function from the residual and the initial guess to the
  single component of the array it returns. It raises nothing here (a failure to
  converge is a warning) and returns its last iterate.
\<close>

type_synonym root_finder = "(npfloat \<Rightarrow> npfloat) \<Rightarrow> npfloat \<Rightarrow> npfloat"

definition bubble_point_temp :: "root_finder \<Rightarrow> npfloat \<Rightarrow> npfloat" where
  "bubble_point_temp fsolve x_heptane =
     (let T_guess = Fin 100 in fsolve (func x_heptane) T_guess)"

section \<open>Composition sweep\<close>

text \<open>
  \<^verbatim>\<open>np.linspace(start, stop, num)\<close> (library routine, endpoint included), as numpy
  computes it: \<open>arange(num) * step + start\<close> with \<open>step = (stop - start) / (num - 1)\<close>,
  and the last sample overwritten with \<open>stop\<close>.
\<close>

definition linspace :: "real \<Rightarrow> real \<Rightarrow> nat \<Rightarrow> npfloat list" where
  "linspace start stop num =
     (let dv = num - 1;
          delta = stop - start;
          y = (if 0 < dv then map (\<lambda>i. real i * (delta / real dv) + start) [0..<num]
               else map (\<lambda>i. real i * delta + start) [0..<num])
      in map Fin (if 1 < num then y[num - 1 := stop] else y))"

definition x_vals :: "npfloat list" where
  "x_vals = linspace 0 1 21"

record sweep_state =
  T_vals :: "npfloat list"
  y_vals :: "npfloat list"
  table_data :: "(npfloat \<times> npfloat \<times> npfloat) list"

definition sweep_init :: sweep_state where
  "sweep_init = \<lparr>T_vals = [], y_vals = [], table_data = []\<rparr>"

text \<open>The body of \<^verbatim>\<open>for x in x_vals\<close>: the three lists are appended to.\<close>

definition sweep_body :: "root_finder \<Rightarrow> npfloat \<Rightarrow> sweep_state \<Rightarrow> sweep_state" where
  "sweep_body fsolve x s =
     (let T = bubble_point_temp fsolve x;
          P_heptane = antoine_at T heptane;
          y = np_div (np_mul x P_heptane) (Fin P_total)
      in s\<lparr>T_vals := T_vals s @ [T],
            y_vals := y_vals s @ [y],
            table_data := table_data s @ [(np_round x 3, np_round y 3, np_round T 2)]\<rparr>)"

definition sweep_over :: "root_finder \<Rightarrow> npfloat list \<Rightarrow> sweep_state" where
  "sweep_over fsolve xs = fold (sweep_body fsolve) xs sweep_init"

definition sweep :: "root_finder \<Rightarrow> sweep_state" where
  "sweep fsolve = sweep_over fsolve x_vals"

section \<open>Real-valued forms used in the proofs\<close>

text \<open>
  The saturation pressures and the residual as real functions of a real temperature.
  They are named here for the proofs; for \<open>T \<ge> 0\<close>, where the powers are well inside the
  range of doubles, the lemmas \<open>antoine_at_heptane\<close>, \<open>antoine_at_octane\<close> and
  \<open>func_regular\<close> tie them to \<open>antoine_at\<close> and \<open>func\<close>.
\<close>

definition psat_heptane :: "real \<Rightarrow> real" where
  "psat_heptane t = 10 powr (6893 / 1000 - 1260 / (216 + t))"

definition psat_octane :: "real \<Rightarrow> real" where
  "psat_octane t = 10 powr (69094 / 10000 - 1351 / (217 + t))"

definition residual :: "real \<Rightarrow> real \<Rightarrow> real" where
  "residual x t = x * psat_heptane t + (1 - x) * psat_octane t - 760"

text \<open>
  Antoine's equation solved for the temperature at which a species alone has the
  saturation pressure \<open>P_total\<close>: the exact zero of the residual at \<open>x = 1\<close> (heptane) and
  at \<open>x = 0\<close> (octane).
\<close>

definition boiling_point :: "species \<Rightarrow> real" where
  "boiling_point name =
     (let c = antoine_constants name
      in const_B c / (const_A c - log 10 P_total) - const_C c)"

section \<open>Saturation pressure\<close>

lemma dbl_underflow_less: "dbl_underflow < 10 powr (- 323)"
proof -
  have "(10::real) ^ 323 < 2 ^ 1075" by simp
  then have "1 / (2::real) ^ 1075 < 1 / 10 ^ 323"
    by (intro divide_strict_left_mono mult_pos_pos) simp_all
  moreover have "(10::real) powr (- 323) = 1 / 10 ^ 323"
    by (simp add: powr_minus_divide)
  ultimately show ?thesis by (simp add: dbl_underflow_def)
qed

lemma dbl_overflow_greater: "10 powr 308 < dbl_overflow"
proof -
  have "(10::real) ^ 308 < 2 ^ 1024 - 2 ^ 970" by simp
  then show ?thesis by (simp add: dbl_overflow_def)
qed


lemma dbl_overflow_le: "dbl_overflow \<le> 10 powr 309"
proof -
  have "(2::real) ^ 1024 - 2 ^ 970 \<le> 10 ^ 309" by simp
  then show ?thesis by (simp add: dbl_overflow_def)
qed

lemma pow10_in_range:
  assumes "- 323 \<le> e" and "e \<le> 308"
  shows "\<not> dbl_overflow \<le> 10 powr e \<and> \<not> 10 powr e \<le> dbl_underflow"
proof -
  have l: "(10::real) powr (- 323) \<le> 10 powr e" using assms(1) by (intro powr_mono) simp_all
  have u: "dbl_underflow < 10 powr e" by (rule less_le_trans [OF dbl_underflow_less l])
  have h: "(10::real) powr e \<le> 10 powr 308" using assms(2) by (intro powr_mono) simp_all
  have o: "10 powr e < dbl_overflow" by (rule le_less_trans [OF h dbl_overflow_greater])
  show ?thesis using u o by (simp only: not_le simp_thms)
qed

lemma np_pow10_regular:
  assumes "- 323 \<le> e" and "e \<le> 308"
  shows "np_pow10 (Fin e) = Fin (10 powr e)"
  using pow10_in_range [OF assms] by (simp only: np_pow10.simps if_False)


lemma np_pow10_overflow:
  assumes "309 \<le> e"
  shows "np_pow10 (Fin e) = PInf"
proof -
  have l: "(10::real) powr 309 \<le> 10 powr e" using assms by (intro powr_mono) simp_all
  have "dbl_overflow \<le> 10 powr e" by (rule order_trans [OF dbl_overflow_le l])
  then show ?thesis by (simp only: np_pow10.simps if_True)
qed

lemma antoine_eq_exponent:
  "C + t \<noteq> 0 \<Longrightarrow> antoine_eq (Fin t) A B C = np_pow10 (Fin (A - B / (C + t)))"
  by (simp add: antoine_eq_def np_sub_def del: np_pow10.simps)

lemma antoine_eq_regular:
  "C + t \<noteq> 0 \<Longrightarrow> - 323 \<le> A - B / (C + t) \<Longrightarrow> A - B / (C + t) \<le> 308 \<Longrightarrow>
   antoine_eq (Fin t) A B C = Fin (10 powr (A - B / (C + t)))"
  by (simp add: antoine_eq_exponent np_pow10_regular del: np_pow10.simps)

lemma antoine_eq_singular:
  "C + t = 0 \<Longrightarrow> 0 < B \<Longrightarrow> antoine_eq (Fin t) A B C = Fin 0"
  by (simp add: antoine_eq_def np_sub_def)






section \<open>The sweep as three maps over the samples\<close>

lemma fold_sweep_body_T:
  "T_vals (fold (sweep_body fs) xs s) = T_vals s @ map (bubble_point_temp fs) xs"
  by (induction xs arbitrary: s) (simp_all add: sweep_body_def Let_def)

lemma fold_sweep_body_y:
  "y_vals (fold (sweep_body fs) xs s) =
     y_vals s @
     map (\<lambda>x. np_div (np_mul x (antoine_at (bubble_point_temp fs x) heptane)) (Fin P_total)) xs"
  by (induction xs arbitrary: s) (simp_all add: sweep_body_def Let_def)

lemma fold_sweep_body_table:
  "table_data (fold (sweep_body fs) xs s) =
     table_data s @
     map (\<lambda>x. (np_round x 3,
        np_round (np_div (np_mul x (antoine_at (bubble_point_temp fs x) heptane)) (Fin P_total)) 3,
        np_round (bubble_point_temp fs x) 2)) xs"
  by (induction xs arbitrary: s) (simp_all add: sweep_body_def Let_def)

lemma T_vals_sweep: "T_vals (sweep fs) = map (bubble_point_temp fs) x_vals"
  by (simp add: sweep_def sweep_over_def fold_sweep_body_T sweep_init_def)

lemma y_vals_sweep:
  "y_vals (sweep fs) =
     map (\<lambda>x. np_div (np_mul x (antoine_at (bubble_point_temp fs x) heptane)) (Fin P_total))
       x_vals"
  by (simp add: sweep_def sweep_over_def fold_sweep_body_y sweep_init_def)

lemma table_data_sweep:
  "table_data (sweep fs) =
     map (\<lambda>x. (np_round x 3,
        np_round (np_div (np_mul x (antoine_at (bubble_point_temp fs x) heptane)) (Fin P_total)) 3,
        np_round (bubble_point_temp fs x) 2)) x_vals"
  by (simp add: sweep_def sweep_over_def fold_sweep_body_table sweep_init_def)

lemma upt_21:
  "[0..<21] =
     [0, 1, 2, 3, 4, 5, 6, 7, 8, 9, 10, 11, 12, 13, 14, 15, 16, 17, 18, 19, 20 :: nat]"
  by code_simp

lemma x_vals_eq: "x_vals = map (\<lambda>k. Fin (real k / 20)) [0..<21]"
  unfolding x_vals_def linspace_def Let_def upt_21
  by simp

lemma length_x_vals: "length x_vals = 21"
  by (simp add: x_vals_eq)

lemma rint_of_int: "rint (of_int n) = n"
  by (simp add: rint_def)

lemma np_round_sample: "np_round (Fin (real k / 20)) 3 = Fin (real k / 20)"
proof -
  have "real k / 20 * 10 ^ 3 = of_int (int (50 * k))" by simp
  then have "rint (real k / 20 * 10 ^ 3) = int (50 * k)" by (simp only: rint_of_int)
  then show ?thesis by simp
qed

text \<open>
  C6. For each sweep sample the stored vapour fraction is \<open>x * Psat_heptane(T) / P_total\<close>,
  with the saturation pressure computed by \<open>antoine_eq\<close> at the stored temperature, which
  is what the solver returned for that sample: whatever the root-finder evaluated
  internally plays no part.
\<close>

theorem vapor_fraction_recomputed:
  "T_vals (sweep fsolve) = map (bubble_point_temp fsolve) x_vals \<and>
   y_vals (sweep fsolve) =
     map2 (\<lambda>x T. np_div (np_mul x (antoine_eq T (6893 / 1000) 1260 216)) (Fin 760))
       x_vals (T_vals (sweep fsolve))"
  by (simp add: T_vals_sweep y_vals_sweep antoine_at_def P_total_def zip_map2 o_def
      map_zip_map2 zip_same_conv_map)

text \<open>
  C7. The sweep runs over exactly 21 samples \<open>k / 20\<close>, \<open>k = 0, \<dots>, 20\<close>: the first is
  \<open>0\<close>, the last is \<open>1\<close>, they are strictly ascending and without duplicates, and the
  table has one row per sample, its \<open>x\<close> column in that order.
\<close>

theorem sweep_samples:
  "x_vals = map (\<lambda>k. Fin (real k / 20)) [0..<21] \<and>
   length x_vals = 21 \<and> hd x_vals = Fin 0 \<and> last x_vals = Fin 1 \<and>
   sorted_wrt np_less x_vals \<and> distinct x_vals \<and>
   length (table_data (sweep fsolve)) = 21 \<and>
   map fst (table_data (sweep fsolve)) = x_vals"
proof -
  have e: "x_vals = map (\<lambda>k. Fin (real k / 20)) [0..<21]"
    by (rule x_vals_eq)
  have h: "hd x_vals = Fin 0" and l: "last x_vals = Fin 1"
    by (simp_all add: x_vals_eq upt_21)
  have s: "sorted_wrt np_less x_vals"
    by (simp add: x_vals_eq sorted_wrt_map del: upt_Suc)
  have d: "distinct x_vals"
    by (simp add: x_vals_eq distinct_map inj_on_def del: upt_Suc)
  have t: "map fst (table_data (sweep fsolve)) = x_vals"
    by (simp add: table_data_sweep o_def x_vals_eq np_round_sample del: upt_Suc np_round.simps)
  show ?thesis
    using e h l s d t by (simp add: table_data_sweep length_x_vals)
qed

text \<open>
  C9. The solver returns what the root-finder produced from the guess \<open>100\<close>, and the
  sweep stores it: for every root-finder, whatever it returns (a temperature whose
  residual is not zero, one that gives \<open>y\<close> outside \<open>[0, 1]\<close>, an infinity or nan),
  the three sequences and the table have 21 entries, one per sample, computed from that
  value with no check.
\<close>

theorem sweep_accepts_any_result:
  "bubble_point_temp fsolve x = fsolve (func x) (Fin 100) \<and>
   T_vals (sweep fsolve) = map (\<lambda>x. fsolve (func x) (Fin 100)) x_vals \<and>
   length (T_vals (sweep fsolve)) = 21 \<and>
   length (y_vals (sweep fsolve)) = 21 \<and>
   length (table_data (sweep fsolve)) = 21 \<and>
   table_data (sweep fsolve) =
     map (\<lambda>x. (np_round x 3,
        np_round (np_div (np_mul x (antoine_at (fsolve (func x) (Fin 100)) heptane)) (Fin P_total)) 3,
        np_round (fsolve (func x) (Fin 100)) 2)) x_vals"
  by (simp add: T_vals_sweep y_vals_sweep table_data_sweep length_x_vals bubble_point_temp_def)

section \<open>Bounds on powers of ten\<close>

lemma powr_ratio_less:
  fixes c :: real
  assumes q: "0 < q" and c: "0 < c" and lt: "(10::real) ^ p < c ^ q"
  shows "10 powr (real p / real q) < c"
proof (rule ccontr)
  assume "\<not> 10 powr (real p / real q) < c"
  then have "c \<le> 10 powr (real p / real q)" by simp
  then have "c powr real q \<le> (10 powr (real p / real q)) powr real q"
    using c by (intro powr_mono2) simp_all
  also have "\<dots> = 10 powr real p"
    using q by (simp add: powr_powr)
  finally have "c ^ q \<le> 10 ^ p"
    using c by (simp add: powr_realpow)
  with lt show False by simp
qed

lemma powr_ratio_greater:
  fixes c :: real
  assumes q: "0 < q" and c: "0 < c" and lt: "c ^ q < (10::real) ^ p"
  shows "c < 10 powr (real p / real q)"
proof (rule ccontr)
  assume "\<not> c < 10 powr (real p / real q)"
  then have "10 powr (real p / real q) \<le> c" by simp
  then have "(10 powr (real p / real q)) powr real q \<le> c powr real q"
    by (intro powr_mono2) simp_all
  moreover have "(10 powr (real p / real q)) powr real q = 10 powr real p"
    using q by (simp add: powr_powr)
  ultimately have "10 ^ p \<le> c ^ q"
    using c by (simp add: powr_realpow)
  with lt show False by simp
qed

lemma powr_frac_less:
  fixes a b :: real
  assumes q: "0 < q" and a: "0 < a" and b: "0 < b" and lt: "(10::real) ^ p * b ^ q < a ^ q"
  shows "10 powr (real p / real q) < a / b"
proof (rule powr_ratio_less [OF q])
  show "0 < a / b" using a b by simp
  have "(10::real) ^ p < a ^ q / b ^ q"
    using lt b by (simp add: pos_less_divide_eq)
  then show "(10::real) ^ p < (a / b) ^ q" by (simp add: power_divide)
qed

lemma powr_frac_greater:
  fixes a b :: real
  assumes q: "0 < q" and a: "0 < a" and b: "0 < b" and lt: "a ^ q < (10::real) ^ p * b ^ q"
  shows "a / b < 10 powr (real p / real q)"
proof (rule powr_ratio_greater [OF q])
  show "0 < a / b" using a b by simp
  have "a ^ q / b ^ q < (10::real) ^ p"
    using lt b by (simp add: pos_divide_less_eq)
  then show "(a / b) ^ q < (10::real) ^ p" by (simp add: power_divide)
qed

lemma ten_powr_fifth: "(3 / 2 :: real) < 10 powr (1 / 5)"
proof -
  have "(3 / 2 :: real) < 10 powr (real 1 / real 5)"
    by (rule powr_frac_greater) simp_all
  then show ?thesis by simp
qed

lemma log_760_lower: "10 powr (265 / 92) < (1519 / 2 :: real)"
proof -
  have "10 powr (real 265 / real 92) < (1519 / 2 :: real)"
    by (rule powr_frac_less) simp_all
  then show ?thesis by simp
qed

lemma log_760_upper: "(3801 / 5 :: real) < 10 powr (121 / 42)"
proof -
  have "(3801 / 5 :: real) < 10 powr (real 121 / real 42)"
    by (rule powr_frac_greater) simp_all
  then show ?thesis by simp
qed



lemma log_760_lt: "log 10 760 < 121 / 42"
proof (rule iffD2 [OF log_less_iff])
  show "(760::real) < 10 powr (121 / 42)" using log_760_upper by simp
qed simp_all

section \<open>The saturation pressures as real functions\<close>

lemma psat_heptane_pos: "0 < psat_heptane t"
  by (simp add: psat_heptane_def)

lemma psat_octane_pos: "0 < psat_octane t"
  by (simp add: psat_octane_def)

text \<open>For \<open>T \<ge> 0\<close> the exponents lie between \<open>0\<close> and \<open>7\<close>: the powers are in range.\<close>

lemma antoine_at_heptane:
  assumes "0 \<le> t"
  shows "antoine_at (Fin t) heptane = Fin (psat_heptane t)"
proof -
  have "1260 / (216 + t) \<le> 1260 / 216"
    using assms by (intro divide_left_mono) simp_all
  moreover have "0 \<le> 1260 / (216 + t)" using assms by simp
  ultimately have "- 323 \<le> 6893 / 1000 - 1260 / (216 + t)"
    "6893 / 1000 - 1260 / (216 + t) \<le> 308" by linarith+
  then have "antoine_eq (Fin t) (6893 / 1000) 1260 216 =
      Fin (10 powr (6893 / 1000 - 1260 / (216 + t)))"
    using assms by (intro antoine_eq_regular) simp_all
  then show ?thesis by (simp add: antoine_at_def psat_heptane_def)
qed

lemma antoine_at_octane:
  assumes "0 \<le> t"
  shows "antoine_at (Fin t) octane = Fin (psat_octane t)"
proof -
  have "1351 / (217 + t) \<le> 1351 / 217"
    using assms by (intro divide_left_mono) simp_all
  moreover have "0 \<le> 1351 / (217 + t)" using assms by simp
  ultimately have "- 323 \<le> 69094 / 10000 - 1351 / (217 + t)"
    "69094 / 10000 - 1351 / (217 + t) \<le> 308" by linarith+
  then have "antoine_eq (Fin t) (69094 / 10000) 1351 217 =
      Fin (10 powr (69094 / 10000 - 1351 / (217 + t)))"
    using assms by (intro antoine_eq_regular) simp_all
  then show ?thesis by (simp add: antoine_at_def psat_octane_def)
qed

text \<open>
  Above its pole a saturation pressure cannot overflow: it is the real value, or \<open>0\<close>
  when the power underflows.
\<close>

lemma antoine_at_heptane_above_pole:
  assumes "- 216 < t"
  shows "\<exists>v. antoine_at (Fin t) heptane = Fin v \<and> 0 \<le> v \<and> v \<le> psat_heptane t"
proof -
  have "0 < 1260 / (216 + t)" using assms by simp
  then have "6893 / 1000 - 1260 / (216 + t) \<le> 308" by linarith
  then have "(10::real) powr (6893 / 1000 - 1260 / (216 + t)) \<le> 10 powr 308"
    by (intro powr_mono) simp_all
  then have "10 powr (6893 / 1000 - 1260 / (216 + t)) < dbl_overflow"
    by (rule le_less_trans [OF _ dbl_overflow_greater])
  then have o: "\<not> dbl_overflow \<le> 10 powr (6893 / 1000 - 1260 / (216 + t))"
    by (simp only: not_le)
  have "antoine_at (Fin t) heptane = np_pow10 (Fin (6893 / 1000 - 1260 / (216 + t)))"
    using assms by (simp add: antoine_at_def antoine_eq_exponent del: np_pow10.simps)
  then have "antoine_at (Fin t) heptane =
      (if 10 powr (6893 / 1000 - 1260 / (216 + t)) \<le> dbl_underflow then Fin 0
       else Fin (psat_heptane t))"
    using o by (simp only: np_pow10.simps if_False psat_heptane_def)
  then show ?thesis using psat_heptane_pos [of t] by (auto split: if_splits)
qed

lemma antoine_at_octane_above_pole:
  assumes "- 217 < t"
  shows "\<exists>w. antoine_at (Fin t) octane = Fin w \<and> 0 \<le> w \<and> w \<le> psat_octane t"
proof -
  have "0 < 1351 / (217 + t)" using assms by simp
  then have "69094 / 10000 - 1351 / (217 + t) \<le> 308" by linarith
  then have "(10::real) powr (69094 / 10000 - 1351 / (217 + t)) \<le> 10 powr 308"
    by (intro powr_mono) simp_all
  then have "10 powr (69094 / 10000 - 1351 / (217 + t)) < dbl_overflow"
    by (rule le_less_trans [OF _ dbl_overflow_greater])
  then have o: "\<not> dbl_overflow \<le> 10 powr (69094 / 10000 - 1351 / (217 + t))"
    by (simp only: not_le)
  have "antoine_at (Fin t) octane = np_pow10 (Fin (69094 / 10000 - 1351 / (217 + t)))"
    using assms by (simp add: antoine_at_def antoine_eq_exponent del: np_pow10.simps)
  then have "antoine_at (Fin t) octane =
      (if 10 powr (69094 / 10000 - 1351 / (217 + t)) \<le> dbl_underflow then Fin 0
       else Fin (psat_octane t))"
    using o by (simp only: np_pow10.simps if_False psat_octane_def)
  then show ?thesis using psat_octane_pos [of t] by (auto split: if_splits)
qed

text \<open>
  Below its pole the exponent exceeds the constant \<open>A\<close>: the saturation pressure is a
  large number or \<open>inf\<close>, and within one degree of the pole it is \<open>inf\<close>.
\<close>

lemma antoine_at_heptane_below_pole:
  assumes "t < - 216"
  shows "antoine_at (Fin t) heptane = PInf \<or>
    (\<exists>v. antoine_at (Fin t) heptane = Fin v \<and> 100000 \<le> v)"
proof -
  let ?e = "6893 / 1000 - 1260 / (216 + t)"
  have "1260 / (216 + t) \<le> 0" using assms by (simp add: divide_le_0_iff)
  then have e: "5 \<le> ?e" by linarith
  then have "(10::real) powr 5 \<le> 10 powr ?e" by (rule powr_mono) simp
  then have big: "100000 \<le> 10 powr ?e" by simp
  have "(10::real) powr (- 323) \<le> 10 powr ?e" using e by (intro powr_mono) simp_all
  then have "dbl_underflow < 10 powr ?e" by (rule less_le_trans [OF dbl_underflow_less])
  then have u: "\<not> 10 powr ?e \<le> dbl_underflow" by (simp only: not_le)
  have "antoine_at (Fin t) heptane = np_pow10 (Fin ?e)"
    using assms by (simp add: antoine_at_def antoine_eq_exponent del: np_pow10.simps)
  then have "antoine_at (Fin t) heptane = (if dbl_overflow \<le> 10 powr ?e then PInf else Fin (10 powr ?e))"
    using u by (simp only: np_pow10.simps if_False)
  then show ?thesis using big by (auto split: if_splits)
qed

lemma antoine_at_octane_below_pole:
  assumes "t < - 217"
  shows "antoine_at (Fin t) octane = PInf \<or>
    (\<exists>v. antoine_at (Fin t) octane = Fin v \<and> 100000 \<le> v)"
proof -
  let ?e = "69094 / 10000 - 1351 / (217 + t)"
  have "1351 / (217 + t) \<le> 0" using assms by (simp add: divide_le_0_iff)
  then have e: "5 \<le> ?e" by linarith
  then have "(10::real) powr 5 \<le> 10 powr ?e" by (rule powr_mono) simp
  then have big: "100000 \<le> 10 powr ?e" by simp
  have "(10::real) powr (- 323) \<le> 10 powr ?e" using e by (intro powr_mono) simp_all
  then have "dbl_underflow < 10 powr ?e" by (rule less_le_trans [OF dbl_underflow_less])
  then have u: "\<not> 10 powr ?e \<le> dbl_underflow" by (simp only: not_le)
  have "antoine_at (Fin t) octane = np_pow10 (Fin ?e)"
    using assms by (simp add: antoine_at_def antoine_eq_exponent del: np_pow10.simps)
  then have "antoine_at (Fin t) octane = (if dbl_overflow \<le> 10 powr ?e then PInf else Fin (10 powr ?e))"
    using u by (simp only: np_pow10.simps if_False)
  then show ?thesis using big by (auto split: if_splits)
qed

lemma antoine_at_heptane_near_pole:
  assumes "- 217 \<le> t" and "t < - 216"
  shows "antoine_at (Fin t) heptane = PInf"
proof -
  have "- 1260 / (216 + t) \<ge> 1260"
    using assms by (simp add: field_simps)
  then have "309 \<le> 6893 / 1000 - 1260 / (216 + t)" by simp
  then have "np_pow10 (Fin (6893 / 1000 - 1260 / (216 + t))) = PInf"
    by (rule np_pow10_overflow)
  then show ?thesis
    using assms by (simp add: antoine_at_def antoine_eq_exponent del: np_pow10.simps)
qed

lemma antoine_at_heptane_pole: "antoine_at (Fin (- 216)) heptane = Fin 0"
  by (simp add: antoine_at_def antoine_eq_singular)

lemma antoine_at_octane_pole: "antoine_at (Fin (- 217)) octane = Fin 0"
  by (simp add: antoine_at_def antoine_eq_singular)

lemma func_unfold:
  "func (Fin x) T =
     np_sub (np_add (np_mul (Fin x) (antoine_at T heptane))
       (np_mul (Fin (1 - x)) (antoine_at T octane))) (Fin 760)"
  by (simp add: func_def np_sub_def P_total_def Let_def)

lemma func_Fin_Fin:
  "antoine_at T heptane = Fin v \<Longrightarrow> antoine_at T octane = Fin w \<Longrightarrow>
   func (Fin x) T = Fin (x * v + (1 - x) * w - 760)"
  by (simp add: func_unfold np_sub_def)

lemma func_regular:
  "0 \<le> t \<Longrightarrow> func (Fin x) (Fin t) = Fin (residual x t)"
  by (simp add: func_Fin_Fin antoine_at_heptane antoine_at_octane residual_def)

lemma vapor_fraction_Fin:
  "0 \<le> t \<Longrightarrow>
   np_div (np_mul (Fin x) (antoine_at (Fin t) heptane)) (Fin P_total) = Fin (x * psat_heptane t / 760)"
  by (simp add: antoine_at_heptane P_total_def)

lemma psat_heptane_mono:
  assumes "- 216 < t" and "t < u"
  shows "psat_heptane t < psat_heptane u"
proof -
  have "1260 / (216 + u) < 1260 / (216 + t)"
    using assms by (intro divide_strict_left_mono mult_pos_pos) simp_all
  then show ?thesis
    by (simp add: psat_heptane_def)
qed

lemma psat_octane_mono:
  assumes "- 217 < t" and "t < u"
  shows "psat_octane t < psat_octane u"
proof -
  have "1351 / (217 + u) < 1351 / (217 + t)"
    using assms by (intro divide_strict_left_mono mult_pos_pos) simp_all
  then show ?thesis
    by (simp add: psat_octane_def)
qed

lemma psat_heptane_mono_le:
  "- 216 < t \<Longrightarrow> t \<le> u \<Longrightarrow> psat_heptane t \<le> psat_heptane u"
  using psat_heptane_mono [of t u] by (cases "t = u") simp_all

lemma psat_octane_mono_le:
  "- 217 < t \<Longrightarrow> t \<le> u \<Longrightarrow> psat_octane t \<le> psat_octane u"
  using psat_octane_mono [of t u] by (cases "t = u") simp_all

lemma psat_heptane_98: "psat_heptane 98 < 1519 / 2"
proof -
  have "psat_heptane 98 \<le> 10 powr (265 / 92)"
    unfolding psat_heptane_def by (intro powr_mono) simp_all
  with log_760_lower show ?thesis by simp
qed

lemma psat_heptane_981: "3801 / 5 < psat_heptane (981 / 10)"
proof -
  have "10 powr (121 / 42) \<le> psat_heptane (981 / 10)"
    unfolding psat_heptane_def by (intro powr_mono) simp_all
  with log_760_upper show ?thesis by simp
qed

lemma psat_octane_1183: "psat_octane (1183 / 10) < 1519 / 2"
proof -
  have "psat_octane (1183 / 10) \<le> 10 powr (265 / 92)"
    unfolding psat_octane_def by (intro powr_mono) simp_all
  with log_760_lower show ?thesis by simp
qed

lemma psat_octane_1184: "3801 / 5 < psat_octane (1184 / 10)"
proof -
  have "10 powr (121 / 42) \<le> psat_octane (1184 / 10)"
    unfolding psat_octane_def by (intro powr_mono) simp_all
  with log_760_upper show ?thesis by simp
qed

lemma ratio_less:
  fixes a b n d :: real
  shows "0 < d \<Longrightarrow> 0 < b \<Longrightarrow> a * d < b * n \<Longrightarrow> a / b < n / d"
  by (simp add: field_simps)

lemma volatility_gap:
  assumes "98 \<le> t" and "t \<le> 119"
  shows "psat_octane t + 50 \<le> psat_heptane t"
proof -
  have pos: "0 < 216 + t" "0 < 217 + t" using assms by simp_all
  have "(216 + t) * (217 + t) \<le> 335 * 336"
    using assms by (intro mult_mono) simp_all
  then have "2164 * ((216 + t) * (217 + t)) < 10000 * (91 * (216 + t) - 1260)"
    using assms by simp
  then have "2164 / 10000 < (91 * (216 + t) - 1260) / ((216 + t) * (217 + t))"
    using pos by (intro ratio_less mult_pos_pos) simp_all
  also have "(91 * (216 + t) - 1260) / ((216 + t) * (217 + t)) = 1351 / (217 + t) - 1260 / (216 + t)"
    using pos by (simp add: field_simps)
  finally have e: "(69094 / 10000 - 1351 / (217 + t)) + 1 / 5 \<le> 6893 / 1000 - 1260 / (216 + t)"
    by simp
  have "1351 / (217 + t) \<le> 1351 / 315"
    using assms by (intro divide_left_mono) simp_all
  then have "2 \<le> 69094 / 10000 - 1351 / (217 + t)" by simp
  then have "(10::real) powr 2 \<le> psat_octane t"
    unfolding psat_octane_def by (rule powr_mono) simp
  then have o: "100 \<le> psat_octane t" by simp
  have "psat_octane t * 10 powr (1 / 5) = 10 powr ((69094 / 10000 - 1351 / (217 + t)) + 1 / 5)"
    unfolding psat_octane_def by (rule powr_add [symmetric])
  also have "\<dots> \<le> psat_heptane t"
    unfolding psat_heptane_def using e by (rule powr_mono) simp
  finally have "psat_octane t * 10 powr (1 / 5) \<le> psat_heptane t" .
  moreover have "psat_octane t * (3 / 2) \<le> psat_octane t * 10 powr (1 / 5)"
    using ten_powr_fifth psat_octane_pos [of t] by (intro mult_left_mono) simp_all
  ultimately have "psat_octane t * (3 / 2) \<le> psat_heptane t" by simp
  with o show ?thesis by simp
qed

lemma convex_less:
  fixes x a b c :: real
  assumes "0 \<le> x" "x \<le> 1" "a < c" "b < c"
  shows "x * a + (1 - x) * b < c"
proof -
  have "x * a \<le> x * c" using assms by (intro mult_left_mono) simp_all
  moreover have "(1 - x) * b \<le> (1 - x) * c" using assms by (intro mult_left_mono) simp_all
  moreover have "x * a < x * c \<or> (1 - x) * b < (1 - x) * c"
    using assms by (cases "x = 0") simp_all
  moreover have "x * c + (1 - x) * c = c" by (simp add: algebra_simps)
  ultimately show ?thesis by linarith
qed

lemma convex_greater:
  fixes x a b c :: real
  assumes "0 \<le> x" "x \<le> 1" "c < a" "c < b"
  shows "c < x * a + (1 - x) * b"
  using convex_less [of x "- a" "- c" "- b"] assms by (simp add: algebra_simps)

lemma residual_mono:
  assumes "0 \<le> x" "x \<le> 1" "- 216 < t" "t < u"
  shows "residual x t < residual x u"
proof -
  have h: "psat_heptane t < psat_heptane u" using assms by (intro psat_heptane_mono) simp_all
  have o: "psat_octane t < psat_octane u" using assms by (intro psat_octane_mono) simp_all
  have "x * psat_heptane t \<le> x * psat_heptane u"
    using assms h by (intro mult_left_mono) simp_all
  moreover have "(1 - x) * psat_octane t \<le> (1 - x) * psat_octane u"
    using assms o by (intro mult_left_mono) simp_all
  moreover have "x * psat_heptane t < x * psat_heptane u \<or>
      (1 - x) * psat_octane t < (1 - x) * psat_octane u"
    using assms h o by (cases "x = 0") simp_all
  ultimately show ?thesis unfolding residual_def by linarith
qed

lemma residual_mono_le:
  "0 \<le> x \<Longrightarrow> x \<le> 1 \<Longrightarrow> - 216 < t \<Longrightarrow> t \<le> u \<Longrightarrow> residual x t \<le> residual x u"
  using residual_mono [of x t u] by (cases "t = u") simp_all

lemma residual_low:
  assumes "0 \<le> x" "x \<le> 1" "- 216 < t" "t \<le> 98"
  shows "residual x t < - (1 / 2)"
proof -
  have "psat_heptane t \<le> psat_heptane 98"
    using assms by (intro psat_heptane_mono_le) simp_all
  then have h: "psat_heptane t < 1519 / 2" using psat_heptane_98 by simp
  have "psat_octane t < psat_octane (1183 / 10)"
    using assms by (intro psat_octane_mono) simp_all
  then have o: "psat_octane t < 1519 / 2" using psat_octane_1183 by simp
  show ?thesis unfolding residual_def using convex_less [OF assms(1,2) h o] by simp
qed

lemma residual_high:
  assumes "0 \<le> x" "x \<le> 1" "1184 / 10 \<le> t"
  shows "1 / 5 < residual x t"
proof -
  have "psat_octane (1184 / 10) \<le> psat_octane t"
    using assms by (intro psat_octane_mono_le) simp_all
  then have o: "3801 / 5 < psat_octane t" using psat_octane_1184 by simp
  have "psat_heptane (981 / 10) < psat_heptane t"
    using assms by (intro psat_heptane_mono) simp_all
  then have h: "3801 / 5 < psat_heptane t" using psat_heptane_981 by simp
  show ?thesis unfolding residual_def using convex_greater [OF assms(1,2) h o] by simp
qed

section \<open>Where the residual is small\<close>

lemma psat_octane_small:
  assumes "- 217 < t" and "t \<le> - 216"
  shows "psat_octane t < 1"
proof -
  have "1351 / 1 \<le> 1351 / (217 + t)"
    using assms by (intro divide_left_mono) simp_all
  then have "69094 / 10000 - 1351 / (217 + t) < 0" by simp
  then have "10 powr (69094 / 10000 - 1351 / (217 + t)) < (10::real) powr 0"
    by (intro powr_less_mono) simp_all
  then show ?thesis by (simp add: psat_octane_def)
qed

text \<open>
  A mixture of two saturation pressures of which one is \<open>inf\<close> is \<open>inf\<close> or \<open>nan\<close>
  (\<^verbatim>\<open>0 * inf\<close>), never a number.
\<close>

lemma mix_not_finite:
  assumes "0 \<le> x" and "x \<le> 1" and "H = PInf \<or> L = PInf"
    and "H = PInf \<or> (\<exists>v. H = Fin v)" and "L = PInf \<or> (\<exists>w. L = Fin w)"
  shows "np_sub (np_add (np_mul (Fin x) H) (np_mul (Fin (1 - x)) L)) (Fin P) \<noteq> Fin r"
  using assms by (auto simp: np_sub_def split: if_splits)

lemma mix_both_large:
  assumes "0 \<le> x" and "x \<le> 1" and "100000 \<le> v" and "100000 \<le> w"
  shows "(99240::real) \<le> x * v + (1 - x) * w - 760"
proof -
  have "x * 100000 \<le> x * v" using assms by (intro mult_left_mono) simp_all
  moreover have "(1 - x) * 100000 \<le> (1 - x) * w" using assms by (intro mult_left_mono) simp_all
  ultimately have "x * 100000 + (1 - x) * 100000 \<le> x * v + (1 - x) * w" by (rule add_mono)
  moreover have "x * 100000 + (1 - x) * 100000 = 100000" by (simp add: algebra_simps)
  ultimately show ?thesis by simp
qed

lemma mix_both_below:
  assumes "0 \<le> x" and "x \<le> 1" and "v \<le> p" and "w \<le> q"
  shows "x * v + (1 - x) * w - 760 \<le> x * p + (1 - x) * q - (760::real)"
proof -
  have "x * v \<le> x * p" using assms by (intro mult_left_mono) simp_all
  moreover have "(1 - x) * w \<le> (1 - x) * q" using assms by (intro mult_left_mono) simp_all
  ultimately show ?thesis by simp
qed

text \<open>
  At a sweep sample, a finite temperature at which \<open>func\<close> is within \<open>0.2\<close> of zero lies
  between \<open>98\<close> and \<open>118.4\<close>, and \<open>func\<close> is the real residual there.
\<close>

lemma sample_root_bracket:
  assumes s: "x = 0 \<or> 1 / 20 \<le> x" and x1: "x \<le> 1"
    and r: "func (Fin x) (Fin t) = Fin r" and tol: "\<bar>r\<bar> \<le> 1 / 5"
  shows "98 < t \<and> t < 1184 / 10 \<and> residual x t = r"
proof -
  have x0: "0 \<le> x" using s by auto
  consider (a) "t < - 217" | (c) "- 217 \<le> t" "t < - 216" | (d) "t = - 216"
    | (e) "- 216 < t" "t \<le> 98" | (f) "98 < t" "t < 1184 / 10"
    | (g) "1184 / 10 \<le> t"
    by linarith
  then show ?thesis
  proof cases
    case a
    have H: "antoine_at (Fin t) heptane = PInf \<or>
        (\<exists>v. antoine_at (Fin t) heptane = Fin v \<and> 100000 \<le> v)"
      using a by (intro antoine_at_heptane_below_pole) simp
    have L: "antoine_at (Fin t) octane = PInf \<or>
        (\<exists>w. antoine_at (Fin t) octane = Fin w \<and> 100000 \<le> w)"
      using a by (intro antoine_at_octane_below_pole)
    show ?thesis
    proof (cases "antoine_at (Fin t) heptane = PInf \<or> antoine_at (Fin t) octane = PInf")
      case True
      have "func (Fin x) (Fin t) \<noteq> Fin r"
        unfolding func_unfold using x0 x1 True H L by (intro mix_not_finite) auto
      with r show ?thesis by simp
    next
      case False
      then obtain v w where v: "antoine_at (Fin t) heptane = Fin v" "100000 \<le> v"
        and w: "antoine_at (Fin t) octane = Fin w" "100000 \<le> w"
        using H L by auto
      have "func (Fin x) (Fin t) = Fin (x * v + (1 - x) * w - 760)"
        using v(1) w(1) by (rule func_Fin_Fin)
      then have "r = x * v + (1 - x) * w - 760" using r by simp
      then have "99240 \<le> r" using mix_both_large [OF x0 x1 v(2) w(2)] by simp
      with tol show ?thesis by simp
    qed
  next
    case c
    have H: "antoine_at (Fin t) heptane = PInf"
      using c by (intro antoine_at_heptane_near_pole)
    have L: "antoine_at (Fin t) octane = PInf \<or> (\<exists>w. antoine_at (Fin t) octane = Fin w)"
    proof (cases "t = - 217")
      case True
      then show ?thesis by (simp add: antoine_at_octane_pole)
    next
      case False
      then have "- 217 < t" using c by simp
      then show ?thesis using antoine_at_octane_above_pole [of t] by blast
    qed
    have "func (Fin x) (Fin t) \<noteq> Fin r"
      unfolding func_unfold using x0 x1 H L by (intro mix_not_finite) auto
    with r show ?thesis by simp
  next
    case d
    obtain w where w: "antoine_at (Fin t) octane = Fin w" "0 \<le> w" "w \<le> psat_octane t"
      using antoine_at_octane_above_pole [of t] d by auto
    have small: "psat_octane t < 1" using d by (intro psat_octane_small) simp_all
    have "func (Fin x) (Fin t) = Fin (x * 0 + (1 - x) * w - 760)"
      using w(1) d by (intro func_Fin_Fin) (simp_all add: antoine_at_heptane_pole)
    then have e: "r = (1 - x) * w - 760" using r by simp
    have "(1 - x) * w \<le> 1 * w"
      using x0 w(2) by (intro mult_right_mono) simp_all
    with e w(3) small tol show ?thesis by simp
  next
    case e
    obtain v where v: "antoine_at (Fin t) heptane = Fin v" "v \<le> psat_heptane t"
      using antoine_at_heptane_above_pole [of t] e by auto
    obtain w where w: "antoine_at (Fin t) octane = Fin w" "w \<le> psat_octane t"
      using antoine_at_octane_above_pole [of t] e by auto
    have "func (Fin x) (Fin t) = Fin (x * v + (1 - x) * w - 760)"
      using v(1) w(1) by (rule func_Fin_Fin)
    then have "r = x * v + (1 - x) * w - 760" using r by simp
    then have "r \<le> residual x t"
      unfolding residual_def using mix_both_below [OF x0 x1 v(2) w(2)] by simp
    moreover have "residual x t < - (1 / 2)" using x0 x1 e by (intro residual_low)
    ultimately show ?thesis using tol by simp
  next
    case f
    then have "residual x t = r" using r by (simp add: func_regular)
    with f show ?thesis by simp
  next
    case g
    have "1 / 5 < residual x t" using x0 x1 g by (intro residual_high)
    moreover have "residual x t = r" using r g by (simp add: func_regular)
    ultimately show ?thesis using tol by simp
  qed
qed

text \<open>At \<open>inf\<close>, \<open>-inf\<close> and \<open>nan\<close> the function \<open>func\<close> is far from zero or \<open>nan\<close>.\<close>

lemma antoine_eq_PInf:
  "- 323 \<le> A \<Longrightarrow> A \<le> 308 \<Longrightarrow> antoine_eq PInf A B C = Fin (10 powr A)"
  by (simp add: antoine_eq_def np_sub_def np_pow10_regular del: np_pow10.simps)

lemma antoine_eq_NInf:
  "- 323 \<le> A \<Longrightarrow> A \<le> 308 \<Longrightarrow> antoine_eq NInf A B C = Fin (10 powr A)"
  by (simp add: antoine_eq_def np_sub_def np_pow10_regular del: np_pow10.simps)

lemma antoine_eq_NaN: "antoine_eq NaN A B C = NaN"
  by (simp add: antoine_eq_def np_sub_def)

lemma ten_powr_ge_1000: "3 \<le> a \<Longrightarrow> (1000::real) \<le> 10 powr a"
  using powr_mono [of 3 a 10] by simp

lemma func_infinite:
  assumes "0 \<le> x" "x \<le> 1" "T = PInf \<or> T = NInf"
  shows "\<exists>r. func (Fin x) T = Fin r \<and> 200 < r"
proof -
  have h: "960 < (10::real) powr (6893 / 1000)" and o: "960 < (10::real) powr (69094 / 10000)"
    using ten_powr_ge_1000 [of "6893 / 1000"] ten_powr_ge_1000 [of "69094 / 10000"] by simp_all
  have "200 < x * 10 powr (6893 / 1000) + (1 - x) * 10 powr (69094 / 10000) - 760"
    using convex_greater [OF assms(1,2) h o] by simp
  moreover have "antoine_at T heptane = Fin (10 powr (6893 / 1000))"
    using assms(3) by (auto simp: antoine_at_def antoine_eq_PInf antoine_eq_NInf)
  moreover have "antoine_at T octane = Fin (10 powr (69094 / 10000))"
    using assms(3) by (auto simp: antoine_at_def antoine_eq_PInf antoine_eq_NInf)
  ultimately show ?thesis by (simp add: func_Fin_Fin)
qed

lemma func_NaN: "func x NaN = NaN"
  by (cases x) (simp_all add: func_def antoine_at_def antoine_eq_NaN np_sub_def)

lemma root_finite:
  assumes "0 \<le> x" "x \<le> 1" "func (Fin x) T = Fin r" "\<bar>r\<bar> \<le> 1 / 5"
  shows "\<exists>t. T = Fin t"
proof (cases T)
  case (Fin t)
  then show ?thesis by simp
next
  case PInf
  then show ?thesis using func_infinite [OF assms(1,2), of T] assms(3,4) by auto
next
  case NInf
  then show ?thesis using func_infinite [OF assms(1,2), of T] assms(3,4) by auto
next
  case NaN
  then show ?thesis using assms(3) by (simp add: func_NaN)
qed


text \<open>
  Two consequences for temperatures whose real residual is small: at a higher heptane
  fraction such a temperature is lower, and heptane's saturation pressure there is at
  least the total pressure, unless the fraction is \<open>1\<close> and the residual negative.
\<close>

lemma root_antitone:
  assumes sj: "xj = 0 \<or> 1 / 20 \<le> xj" and j1: "xj \<le> 1" and i0: "0 \<le> xi"
    and sep: "xi + 1 / 20 \<le> xj"
    and bi: "98 < ti" "ti < 1184 / 10" and bj: "98 < tj"
    and ri: "\<bar>residual xi ti\<bar> \<le> 1 / 5" and rj: "\<bar>residual xj tj\<bar> \<le> 1 / 5"
  shows "tj < ti"
proof (rule ccontr)
  assume "\<not> tj < ti"
  then have le: "ti \<le> tj" by simp
  have xj0: "0 \<le> xj" using sj by auto
  have "psat_octane ti + 50 \<le> psat_heptane ti"
    using bi by (intro volatility_gap) simp_all
  then have "1 / 20 * 50 \<le> (xj - xi) * (psat_heptane ti - psat_octane ti)"
    using sep by (intro mult_mono) simp_all
  moreover have "residual xj ti = residual xi ti + (xj - xi) * (psat_heptane ti - psat_octane ti)"
    by (simp add: residual_def algebra_simps)
  ultimately have "2 \<le> residual xj ti" using ri by simp
  moreover have "residual xj ti \<le> residual xj tj"
    using xj0 j1 bi le by (intro residual_mono_le) simp_all
  ultimately show False using rj by simp
qed

lemma root_enriches:
  assumes x0: "0 \<le> x" and x1: "x \<le> 1" and b: "98 < t" "t < 1184 / 10"
    and r: "\<bar>residual x t\<bar> \<le> 1 / 5"
    and c: "x \<le> 19 / 20 \<or> 0 \<le> residual x t"
  shows "760 \<le> psat_heptane t"
proof -
  have gap: "psat_octane t + 50 \<le> psat_heptane t"
    using b by (intro volatility_gap) simp_all
  have eq: "psat_heptane t - 760 = residual x t + (1 - x) * (psat_heptane t - psat_octane t)"
    by (simp add: residual_def algebra_simps)
  from c show ?thesis
  proof
    assume "x \<le> 19 / 20"
    then have "1 / 20 * 50 \<le> (1 - x) * (psat_heptane t - psat_octane t)"
      using gap by (intro mult_mono) simp_all
    with eq r show ?thesis by simp
  next
    assume "0 \<le> residual x t"
    moreover have "0 \<le> (1 - x) * (psat_heptane t - psat_octane t)"
      using x1 gap by simp
    ultimately show ?thesis using eq by simp
  qed
qed

section \<open>Exact zeros at the endpoints\<close>


lemma psat_heptane_boiling: "psat_heptane (boiling_point heptane) = 760"
proof -
  have nz: "6893 / 1000 - log 10 760 \<noteq> (0::real)"
    using log_760_lt by simp
  have "216 + boiling_point heptane = 1260 / (6893 / 1000 - log 10 760)"
    by (simp add: boiling_point_def P_total_def)
  then have "1260 / (216 + boiling_point heptane) = 6893 / 1000 - log 10 760"
    using nz by simp
  then have "6893 / 1000 - 1260 / (216 + boiling_point heptane) = log 10 760"
    by simp
  then show ?thesis by (simp add: psat_heptane_def)
qed






section \<open>The zeros at the sweep samples\<close>

lemma x_vals_nth: "k < 21 \<Longrightarrow> x_vals ! k = Fin (real k / 20)"
  by (simp add: x_vals_eq del: upt_Suc)

lemma x_vals_0: "x_vals ! 0 = Fin 0" and x_vals_10: "x_vals ! 10 = Fin (1 / 2)"
  and x_vals_20: "x_vals ! 20 = Fin 1"
  by (simp_all add: x_vals_nth)

lemma T_vals_nth: "k < 21 \<Longrightarrow> T_vals (sweep fs) ! k = bubble_point_temp fs (x_vals ! k)"
  by (simp add: T_vals_sweep length_x_vals)

lemma y_vals_nth:
  "k < 21 \<Longrightarrow> y_vals (sweep fs) ! k =
     np_div (np_mul (x_vals ! k) (antoine_at (T_vals (sweep fs) ! k) heptane)) (Fin P_total)"
  by (simp add: y_vals_sweep T_vals_sweep length_x_vals)

lemma sample_cases:
  assumes "k < 21"
  shows "(real k / 20 = 0 \<or> 1 / 20 \<le> real k / 20) \<and> real k / 20 \<le> 1"
proof -
  have "k = 0 \<or> 1 \<le> k" by auto
  then have "real k = 0 \<or> 1 \<le> real k" by auto
  moreover have "real k \<le> 20" using assms by simp
  ultimately show ?thesis by auto
qed




text \<open>
  The zeros strictly decrease along the sweep, and at a zero the vapour fraction
  derived by the sweep is at least the liquid fraction.
\<close>

lemma sample_roots_decrease:
  assumes "i < j" and "j < 21"
    and zi: "func (x_vals ! i) Ti = Fin 0" and zj: "func (x_vals ! j) Tj = Fin 0"
  shows "np_less Tj Ti"
proof -
  have i21: "i < 21" using assms by simp
  let ?xi = "real i / 20" and ?xj = "real j / 20"
  have xi: "x_vals ! i = Fin ?xi" and xj: "x_vals ! j = Fin ?xj"
    using i21 assms(2) by (simp_all add: x_vals_nth)
  have si: "(?xi = 0 \<or> 1 / 20 \<le> ?xi) \<and> ?xi \<le> 1" by (rule sample_cases [OF i21])
  have sj: "(?xj = 0 \<or> 1 / 20 \<le> ?xj) \<and> ?xj \<le> 1" by (rule sample_cases [OF assms(2)])
  have fi: "func (Fin ?xi) Ti = Fin 0" using zi by (simp add: xi)
  have fj: "func (Fin ?xj) Tj = Fin 0" using zj by (simp add: xj)
  obtain ti where ti: "Ti = Fin ti"
    using root_finite [OF _ conjunct2 [OF si] fi] by auto
  obtain tj where tj: "Tj = Fin tj"
    using root_finite [OF _ conjunct2 [OF sj] fj] by auto
  have bi: "98 < ti \<and> ti < 1184 / 10 \<and> residual ?xi ti = 0"
    using fi unfolding ti
    by (intro sample_root_bracket [OF conjunct1 [OF si] conjunct2 [OF si]]) simp_all
  have bj: "98 < tj \<and> tj < 1184 / 10 \<and> residual ?xj tj = 0"
    using fj unfolding tj
    by (intro sample_root_bracket [OF conjunct1 [OF sj] conjunct2 [OF sj]]) simp_all
  have "real i + 1 \<le> real j" using assms(1) by linarith
  then have sep: "?xi + 1 / 20 \<le> ?xj" by simp
  have "tj < ti"
  proof (rule root_antitone [OF conjunct1 [OF sj] conjunct2 [OF sj] _ sep])
    show "0 \<le> ?xi" by simp
    show "98 < ti" "ti < 1184 / 10" "98 < tj" using bi bj by simp_all
    show "\<bar>residual ?xi ti\<bar> \<le> 1 / 5" using bi by simp
    show "\<bar>residual ?xj tj\<bar> \<le> 1 / 5" using bj by simp
  qed
  then show ?thesis by (simp add: ti tj)
qed

lemma sample_root_enriches:
  assumes "k < 21" and z: "func (x_vals ! k) T = Fin 0"
  shows "np_le (x_vals ! k) (np_div (np_mul (x_vals ! k) (antoine_at T heptane)) (Fin P_total))"
proof -
  let ?x = "real k / 20"
  have xk: "x_vals ! k = Fin ?x" using assms(1) by (simp add: x_vals_nth)
  have s: "(?x = 0 \<or> 1 / 20 \<le> ?x) \<and> ?x \<le> 1" by (rule sample_cases [OF assms(1)])
  have x0: "0 \<le> ?x" by simp
  have f: "func (Fin ?x) T = Fin 0" using z by (simp add: xk)
  obtain t where t: "T = Fin t"
    using root_finite [OF x0 conjunct2 [OF s] f] by auto
  have b: "98 < t \<and> t < 1184 / 10 \<and> residual ?x t = 0"
    using f unfolding t
    by (intro sample_root_bracket [OF conjunct1 [OF s] conjunct2 [OF s]]) simp_all
  have p: "760 \<le> psat_heptane t"
    using root_enriches [OF x0 conjunct2 [OF s], of t] b by simp
  have y: "np_div (np_mul (Fin ?x) (antoine_at (Fin t) heptane)) (Fin P_total) =
      Fin (?x * psat_heptane t / 760)"
    using b by (intro vapor_fraction_Fin) simp
  have "?x * 760 \<le> ?x * psat_heptane t"
    using p x0 by (intro mult_left_mono)
  then have "?x \<le> ?x * psat_heptane t / 760" by simp
  then show ?thesis by (simp add: xk t y)
qed

text \<open>
  At the last sample, \<open>x = 1\<close>, the two fractions are equal at the zero: at any
  temperature below it, however close, the derived vapour fraction is less than \<open>1\<close>.
\<close>

lemma undershoot_not_enriched:
  assumes "0 \<le> t" and "t < boiling_point heptane"
  shows "np_less (np_div (np_mul (x_vals ! 20) (antoine_at (Fin t) heptane)) (Fin P_total))
    (x_vals ! 20)"
proof -
  have "psat_heptane t < psat_heptane (boiling_point heptane)"
    using assms by (intro psat_heptane_mono) simp_all
  then have "psat_heptane t < 760" by (simp add: psat_heptane_boiling)
  then show ?thesis using assms(1) by (simp add: x_vals_20 vapor_fraction_Fin)
qed

section \<open>The endpoint and midpoint samples\<close>








section \<open>Two runs the sweep does not reject\<close>

lemma sweep_stores_non_root:
  "T_vals (sweep (\<lambda>f g. g)) ! 0 = Fin 100 \<and>
   np_less (func (x_vals ! 0) (T_vals (sweep (\<lambda>f g. g)) ! 0)) (Fin 0) \<and>
   length (table_data (sweep (\<lambda>f g. g))) = 21"
proof -
  have "psat_octane 100 < psat_octane (1183 / 10)"
    by (rule psat_octane_mono) simp_all
  then have "residual 0 100 < 0"
    using psat_octane_1183 by (simp add: residual_def)
  moreover have "func (Fin 0) (Fin 100) = Fin (residual 0 100)"
    by (rule func_regular) simp_all
  ultimately show ?thesis
    by (simp add: T_vals_nth bubble_point_temp_def x_vals_0 table_data_sweep length_x_vals)
qed

lemma sweep_stores_y_above_one:
  "np_less (Fin 1) (y_vals (sweep (\<lambda>f g. Fin 200)) ! 20)"
proof -
  have "psat_heptane (981 / 10) < psat_heptane 200"
    by (rule psat_heptane_mono) simp_all
  then have "760 < psat_heptane 200"
    using psat_heptane_981 by simp
  then show ?thesis
    by (simp add: y_vals_nth T_vals_nth bubble_point_temp_def x_vals_20 vapor_fraction_Fin)
qed

end
